theory Spec2Isabelle
  imports Complex_Main "HOL-Library.Multiset" "HOL-Library.Sublist"
begin

section \<open>The batch driver \<open>preprocess_dataset_006.py\<close>\<close>

subsection \<open>Strings and paths\<close>

text \<open>
  A Python \<open>str\<close> is modelled by the \<open>string\<close> holding its UTF-8 encoding. The driver only
  concatenates strings and splits text at line terminators, and both commute with the
  encoding. A \<open>pathlib.Path\<close> is the list of its components; \<open>str\<close> of a path joins them
  with the separator of the platform (a backslash on Windows, a slash elsewhere), which is
  a parameter of the model.
\<close>

type_synonym path = "string list"

definition LF :: char where "LF = CHR 0x0A"
definition CR :: char where "CR = CHR 0x0D"

fun join_with :: "string \<Rightarrow> string list \<Rightarrow> string" where
  "join_with sep [] = []"
| "join_with sep [x] = x"
| "join_with sep (x # y # ys) = x @ sep @ join_with sep (y # ys)"

definition str_path :: "string \<Rightarrow> path \<Rightarrow> string" where
  "str_path sep p = join_with sep p"

text \<open>\<open>p / name\<close> for a name that is a single relative component.\<close>

definition joinpath :: "path \<Rightarrow> string \<Rightarrow> path" where
  "joinpath p name = p @ [name]"

text \<open>\<open>str(n)\<close> of a Python integer: its decimal digits, with a sign.\<close>

definition digit_char :: "nat \<Rightarrow> char" where
  "digit_char d = ''0123456789'' ! d"

fun digits :: "nat \<Rightarrow> string" where
  "digits n = (if n < 10 then [digit_char n] else digits (n div 10) @ [digit_char (n mod 10)])"

declare digits.simps [simp del]

definition str_int :: "int \<Rightarrow> string" where
  "str_int i = (if i < 0 then CHR ''-'' # digits (nat (- i)) else digits (nat i))"

text \<open>
  The non-ASCII parts of the literals, as UTF-8.
  \<open>dir_003\<close> is \<open>003-\<close> followed by U+C18C U+C131 U+AC00 U+ACF5, a space, and
  U+C790 U+C6D0 U+CD5C U+C801 U+D654.
  \<open>press_name_head\<close> is U+D504 U+B808 U+C2A4 and a space.
  \<open>press_name_tail\<close> is U+D638, \<open>-\<close>, U+C720 U+C555 U+BAA8 U+D130, a space,
  U+C804 U+B958 U+B370 U+C774 U+D130, and \<open>.csv\<close>.
\<close>

definition dir_003 :: string where
  "dir_003 = ''003-'' @
     [CHR 0xEC, CHR 0x86, CHR 0x8C, CHR 0xEC, CHR 0x84, CHR 0xB1,
      CHR 0xEA, CHR 0xB0, CHR 0x80, CHR 0xEA, CHR 0xB3, CHR 0xB5] @ '' '' @
     [CHR 0xEC, CHR 0x9E, CHR 0x90, CHR 0xEC, CHR 0x9B, CHR 0x90, CHR 0xEC, CHR 0xB5, CHR 0x9C,
      CHR 0xEC, CHR 0xA0, CHR 0x81, CHR 0xED, CHR 0x99, CHR 0x94]"

definition press_name_head :: string where
  "press_name_head =
     [CHR 0xED, CHR 0x94, CHR 0x84, CHR 0xEB, CHR 0xA0, CHR 0x88, CHR 0xEC, CHR 0x8A, CHR 0xA4] @ '' ''"

definition press_name_tail :: string where
  "press_name_tail =
     [CHR 0xED, CHR 0x98, CHR 0xB8] @ ''-'' @
     [CHR 0xEC, CHR 0x9C, CHR 0xA0, CHR 0xEC, CHR 0x95, CHR 0x95,
      CHR 0xEB, CHR 0xAA, CHR 0xA8, CHR 0xED, CHR 0x84, CHR 0xB0] @ '' '' @
     [CHR 0xEC, CHR 0xA0, CHR 0x84, CHR 0xEB, CHR 0xA5, CHR 0x98, CHR 0xEB, CHR 0x8D, CHR 0xB0,
      CHR 0xEC, CHR 0x9D, CHR 0xB4, CHR 0xED, CHR 0x84, CHR 0xB0] @ ''.csv''"

subsection \<open>Configuration\<close>

definition FILEPREPPER_CLI :: path where
  "FILEPREPPER_CLI = [''D:'', ''data'', ''FilePrepper'', ''src'', ''FilePrepper.CLI'', ''bin'',
     ''Release'', ''net9.0'', ''fileprepper.exe'']"

definition INPUT_DIR :: path where
  "INPUT_DIR = [''D:'', ''data'', ''MLoop'', ''ML-Resource'', dir_003, ''Dataset'', ''data'']"

definition OUTPUT_DIR :: path where
  "OUTPUT_DIR = [''D:'', ''data'', ''MLoop'', ''ML-Resource'', dir_003, ''mloop-project'',
     ''processed-data'']"

subsection \<open>The world the script runs in\<close>

text \<open>
  The file system maps a path to what is there: a directory, a file whose bytes are the
  UTF-8 encoding of a text, or a file that cannot be read as UTF-8 text. The path \<open>[]\<close>
  stands for the root all paths hang from and is never stored.
\<close>

datatype node = Dir | TextFile string | OtherFile

type_synonym filesystem = "path \<rightharpoonup> node"

datatype exn =
    OSError
  | FileNotFoundError
  | PermissionError
  | FileExistsError
  | NotADirectoryError
  | ReadError
  | UnicodeDecodeError
  | ZeroDivisionError

text \<open>
  What \<open>subprocess.run\<close> meets with \<open>capture_output=True\<close>, \<open>text=True\<close> and \<open>check=True\<close>.
  The executable may fail to start, and the call raises the error of the operating system.
  The process may run to completion with captured bytes that are not text in the expected
  encoding: the call raises while decoding, before it looks at the return code. Otherwise
  the process has run to completion with a return code and the two streams as text.
\<close>

datatype start_failure = ExecutableNotFound | ExecutableDenied | OtherStartFailure

fun start_exn :: "start_failure \<Rightarrow> exn" where
  "start_exn ExecutableNotFound = FileNotFoundError"
| "start_exn ExecutableDenied = PermissionError"
| "start_exn OtherStartFailure = OSError"

datatype completed =
    Completed int string string
  | Undecodable int
  | NotStarted start_failure

text \<open>The exit status of the process, when it ran.\<close>

fun returncode_of :: "completed \<Rightarrow> int option" where
  "returncode_of (Completed returncode out err) = Some returncode"
| "returncode_of (Undecodable returncode) = Some returncode"
| "returncode_of (NotStarted f) = None"

text \<open>Each \<open>print\<close> of the script is one event; the fields are the values it formats.\<close>

datatype event =
    Rule
  | Title
  | Subtitle
  | Blank
  | ProcessingPress int
  | InputLine path
  | OutputLine path
  | NotFoundSkipping
  | SuccessLine
  | RowsLine int int rat
  | FailedLine
  | ErrorLine string
  | CompleteLine
  | OutputDirLine path
  | CliNotFoundLine path
  | BuildHintLine
  | InputDirNotFoundLine path

record state =
  files :: filesystem
  console :: "event list"
  invocations :: "string list list"

text \<open>
  The platform: the separator \<open>str\<close> puts between the components of a path, and the
  behaviour of starting a process with an argument vector on a file system.
\<close>

record env =
  os_sep :: string
  spawn :: "string list \<Rightarrow> filesystem \<Rightarrow> completed \<times> filesystem"

definition prints :: "event list \<Rightarrow> state \<Rightarrow> state" where
  "prints es st = st\<lparr>console := console st @ es\<rparr>"

definition exists_path :: "filesystem \<Rightarrow> path \<Rightarrow> bool" where
  "exists_path fsys p = (fsys p \<noteq> None)"

text \<open>
  \<open>mkdir(parents=True, exist_ok=True)\<close>: every missing ancestor is created, from the
  outermost, then the directory itself; an existing directory is left as it is and a
  file in the way raises.
\<close>

fun mkdir_each :: "path list \<Rightarrow> filesystem \<Rightarrow> exn + filesystem" where
  "mkdir_each [] fsys = Inr fsys"
| "mkdir_each (p # ps) fsys =
     (case fsys p of
        None \<Rightarrow> mkdir_each ps (fsys(p \<mapsto> Dir))
      | Some Dir \<Rightarrow> mkdir_each ps fsys
      | Some _ \<Rightarrow> Inl (if ps = [] then FileExistsError else NotADirectoryError))"

definition mkdir_parents_exist_ok :: "path \<Rightarrow> filesystem \<Rightarrow> exn + filesystem" where
  "mkdir_parents_exist_ok p fsys = mkdir_each (tl (prefixes p)) fsys"

text \<open>
  Reading a text file line by line with universal newlines: \<open>\r\n\<close> and \<open>\r\<close> are
  translated to \<open>\n\<close>, and a line ends after each \<open>\n\<close>; a last line without a
  terminator is a line too.
\<close>

fun universal_newlines :: "string \<Rightarrow> string" where
  "universal_newlines [] = []"
| "universal_newlines [c] = [if c = CR then LF else c]"
| "universal_newlines (c # d # cs) =
     (if c = CR \<and> d = LF then LF # universal_newlines cs
      else (if c = CR then LF else c) # universal_newlines (d # cs))"

fun split_lines :: "string \<Rightarrow> string \<Rightarrow> string list" where
  "split_lines cur [] = (if cur = [] then [] else [cur])"
| "split_lines cur (c # cs) =
     (if c = LF then (cur @ [c]) # split_lines [] cs else split_lines (cur @ [c]) cs)"

definition text_lines :: "string \<Rightarrow> string list" where
  "text_lines t = split_lines [] (universal_newlines t)"

text \<open>\<open>sum(1 for _ in open(p, 'r', encoding='utf-8'))\<close>\<close>

definition count_lines :: "filesystem \<Rightarrow> path \<Rightarrow> exn + int" where
  "count_lines fsys p =
     (case fsys p of
        None \<Rightarrow> Inl FileNotFoundError
      | Some Dir \<Rightarrow> Inl OSError
      | Some OtherFile \<Rightarrow> Inl ReadError
      | Some (TextFile t) \<Rightarrow> Inr (int (length (text_lines t))))"

text \<open>
  \<open>a / b\<close> on Python integers. Python returns the binary64 number nearest to the exact
  quotient; the model keeps the exact quotient.
\<close>

definition true_div :: "int \<Rightarrow> int \<Rightarrow> exn + rat" where
  "true_div a b = (if b = 0 then Inl ZeroDivisionError else Inr (of_int a / of_int b))"

subsection \<open>\<open>run_fileprepper\<close>\<close>

definition run_fileprepper :: "env \<Rightarrow> string list \<Rightarrow> state \<Rightarrow> (exn + bool \<times> string) \<times> state" where
  "run_fileprepper e command st =
     (let argv = [str_path (os_sep e) FILEPREPPER_CLI] @ command;
          (result, fsys) = spawn e argv (files st);
          st' = st\<lparr>files := fsys, invocations := invocations st @ [argv]\<rparr>
      in case result of
           Completed returncode out err \<Rightarrow>
             if returncode = 0 then (Inr (True, out), st') else (Inr (False, err), st')
         | Undecodable returncode \<Rightarrow> (Inl UnicodeDecodeError, st')
         | NotStarted f \<Rightarrow> (Inl (start_exn f), st'))"

subsection \<open>\<open>preprocess_press_data\<close>\<close>

definition input_file_of :: "int \<Rightarrow> path" where
  "input_file_of press_num = joinpath INPUT_DIR (press_name_head @ str_int press_num @ press_name_tail)"

definition output_file_of :: "int \<Rightarrow> path" where
  "output_file_of press_num = joinpath OUTPUT_DIR (''press'' @ str_int press_num @ ''_5min.csv'')"

definition window_command :: "string \<Rightarrow> path \<Rightarrow> path \<Rightarrow> string list" where
  "window_command sep input_file output_file =
     [''window'',
      ''-i'', str_path sep input_file,
      ''-o'', str_path sep output_file,
      ''--type'', ''resample'',
      ''--method'', ''mean'',
      ''--columns'', ''RMS[A]'',
      ''--time-column'', ''Time_s[s]'',
      ''--window'', ''5T'',
      ''--header'']"

text \<open>The body of the \<open>for\<close> loop, for one press number.\<close>

definition process_press :: "env \<Rightarrow> int \<Rightarrow> state \<Rightarrow> (exn + unit) \<times> state" where
  "process_press e press_num st0 =
     (let input_file = input_file_of press_num;
          output_file = output_file_of press_num;
          st1 = prints [ProcessingPress press_num, InputLine input_file, OutputLine output_file] st0
      in if \<not> exists_path (files st1) input_file
         then (Inr (), prints [NotFoundSkipping, Blank] st1)
         else
           (case run_fileprepper e (window_command (os_sep e) input_file output_file) st1 of
              (Inl x, st2) \<Rightarrow> (Inl x, st2)
            | (Inr (success, output), st2) \<Rightarrow>
                if success then
                  (let st3 = prints [SuccessLine] st2 in
                   case count_lines (files st3) input_file of
                     Inl x \<Rightarrow> (Inl x, st3)
                   | Inr input_rows \<Rightarrow>
                   (case count_lines (files st3) output_file of
                     Inl x \<Rightarrow> (Inl x, st3)
                   | Inr output_rows \<Rightarrow>
                   (case true_div ((input_rows - output_rows) * 100) input_rows of
                     Inl x \<Rightarrow> (Inl x, st3)
                   | Inr reduction \<Rightarrow>
                       (Inr (), prints [RowsLine input_rows output_rows reduction, Blank] st3))))
                else (Inr (), prints [FailedLine, ErrorLine output, Blank] st2)))"

text \<open>The \<open>for\<close> loop: an exception leaves the loop, anything else goes on to the next number.\<close>

fun for_press_num :: "env \<Rightarrow> int list \<Rightarrow> state \<Rightarrow> (exn + unit) \<times> state" where
  "for_press_num e [] st = (Inr (), st)"
| "for_press_num e (press_num # rest) st =
     (case process_press e press_num st of
        (Inl x, st') \<Rightarrow> (Inl x, st')
      | (Inr u, st') \<Rightarrow> for_press_num e rest st')"

text \<open>\<open>range(a, b)\<close>\<close>

definition py_range :: "int \<Rightarrow> int \<Rightarrow> int list" where
  "py_range a b = [a..b - 1]"

definition preprocess_press_data :: "env \<Rightarrow> state \<Rightarrow> (exn + unit) \<times> state" where
  "preprocess_press_data e st =
     (case mkdir_parents_exist_ok OUTPUT_DIR (files st) of
        Inl x \<Rightarrow> (Inl x, st)
      | Inr fsys \<Rightarrow>
          (let st1 = prints [Rule, Title, Subtitle, Rule, Blank] (st\<lparr>files := fsys\<rparr>)
           in case for_press_num e (py_range 1 5) st1 of
                (Inl x, st2) \<Rightarrow> (Inl x, st2)
              | (Inr u, st2) \<Rightarrow>
                  (Inr (), prints [Rule, CompleteLine, OutputDirLine OUTPUT_DIR, Rule] st2)))"

subsection \<open>The script\<close>

datatype ending = Finished | Uncaught exn | Exited int

definition main :: "env \<Rightarrow> state \<Rightarrow> ending \<times> state" where
  "main e st =
     (if \<not> exists_path (files st) FILEPREPPER_CLI
      then (Exited 1, prints [CliNotFoundLine FILEPREPPER_CLI, BuildHintLine] st)
      else if \<not> exists_path (files st) INPUT_DIR
      then (Exited 1, prints [InputDirNotFoundLine INPUT_DIR] st)
      else (case preprocess_press_data e st of
              (Inl x, st') \<Rightarrow> (Uncaught x, st')
            | (Inr u, st') \<Rightarrow> (Finished, st')))"

text \<open>The argument vector of the one process started for a press number.\<close>

definition cli_argv :: "string \<Rightarrow> int \<Rightarrow> string list" where
  "cli_argv sep n =
     str_path sep FILEPREPPER_CLI # window_command sep (input_file_of n) (output_file_of n)"

text \<open>What the console announced: the press numbers and the two paths printed for each.\<close>

definition announced_presses :: "event list \<Rightarrow> int list" where
  "announced_presses es = [n. ProcessingPress n \<leftarrow> es]"

definition announced_inputs :: "event list \<Rightarrow> path list" where
  "announced_inputs es = [p. InputLine p \<leftarrow> es]"

definition announced_outputs :: "event list \<Rightarrow> path list" where
  "announced_outputs es = [p. OutputLine p \<leftarrow> es]"

subsection \<open>A small world to run the script in\<close>

text \<open>
  The tool is installed and the input directory holds the files of presses 1 and 4. The
  tool succeeds on press 1, writing a table of three lines, succeeds on press 2 writing
  nothing, and fails on every other argument vector.
\<close>

definition example_header :: string where
  "example_header = ''Time_s[s],RMS[A]''"

definition example_data_in :: string where
  "example_data_in = ''0,1.0'' @ [LF] @ ''60,3.0'' @ [LF] @ ''400,5.0'' @ [LF]"

definition example_data_out :: string where
  "example_data_out = ''0,2.0'' @ [CR, LF] @ ''300,5.0'' @ [CR, LF]"

definition example_table_in :: string where
  "example_table_in = example_header @ [LF] @ example_data_in"

definition example_table_out :: string where
  "example_table_out = example_header @ [CR, LF] @ example_data_out"

definition example_files :: filesystem where
  "example_files =
     [FILEPREPPER_CLI \<mapsto> OtherFile, INPUT_DIR \<mapsto> Dir,
      input_file_of 1 \<mapsto> TextFile example_table_in,
      input_file_of 4 \<mapsto> TextFile example_table_in]"

definition example_env :: env where
  "example_env =
     \<lparr>os_sep = ''/'',
      spawn = (\<lambda>argv fsys.
        if argv = cli_argv ''/'' 1
        then (Completed 0 ''done'' [], fsys(output_file_of 1 \<mapsto> TextFile example_table_out))
        else if argv = cli_argv ''/'' 2
        then (Completed 0 ''done'' [], fsys(output_file_of 2 \<mapsto> TextFile []))
        else (Completed 1 [] ''column not found'', fsys))\<rparr>"

definition example_state :: state where
  "example_state = \<lparr>files = example_files, console = [], invocations = []\<rparr>"

definition example_state_empty_input :: state where
  "example_state_empty_input = example_state\<lparr>files := example_files(input_file_of 2 \<mapsto> TextFile [])\<rparr>"

text \<open>A tool that exits with status zero after writing bytes that are not text.\<close>

definition undecodable_env :: env where
  "undecodable_env = \<lparr>os_sep = ''/'', spawn = (\<lambda>argv fsys. (Undecodable 0, fsys))\<rparr>"

text \<open>An executable that is there and may not be run.\<close>

definition unstartable_env :: env where
  "unstartable_env =
     \<lparr>os_sep = ''/'', spawn = (\<lambda>argv fsys. (NotStarted ExecutableDenied, fsys))\<rparr>"

definition bare_state :: state where
  "bare_state = \<lparr>files = Map.empty, console = [], invocations = []\<rparr>"

definition state_without_input_dir :: state where
  "state_without_input_dir =
     \<lparr>files = [FILEPREPPER_CLI \<mapsto> OtherFile], console = [], invocations = []\<rparr>"

section \<open>The resampling engine\<close>

text \<open>
  The script asks the tool for a \<open>window\<close> operation of type \<open>resample\<close>. The engine that
  performs it belongs to the repository but is not among its sources here, so it is
  written down from the specification: the numbers are exact rationals, a table is a header
  and a list of observations, and an observation maps column names to cells.
\<close>

text \<open>Modelled from the spec: the reducers, a closed set of named strategies (the engine's
  source is missing).\<close>

datatype reducer = ByMean | BySum | ByMin | ByMax | ByCount | ByFirst | ByLast

text \<open>Modelled from the spec: the fatal errors of a \<open>resample\<close> call (the engine's source is
  missing); the context an error is reported with is not modelled.\<close>

datatype engine_error = ColumnNotFoundError | MalformedInputError | InvalidWindowError

text \<open>Modelled from the spec: a cell of the input table, a number or a text that does not
  parse as one (the engine's source is missing).\<close>

datatype cell = Num rat | Unparsable

text \<open>Modelled from the spec: an Observation, from column name to cell (the engine's source
  is missing).\<close>

type_synonym observation = "(string \<times> cell) list"

text \<open>Modelled from the spec: the input table, its header row and its observations in the
  order of the input (the engine's source is missing).\<close>

record series =
  header :: "string list"
  rows :: "observation list"

text \<open>Modelled from the spec: the anchor rule, which the spec leaves open between a fixed
  origin and the first timestamp of the series (the engine's source is missing).\<close>

datatype anchor = Epoch rat | FirstObservation

text \<open>Modelled from the spec: an Aggregated Row, the window start and one value for each
  selected column, \<open>None\<close> being the marker of an empty window (the engine's source is
  missing).\<close>

record aggregated_row =
  window_start :: rat
  aggregates :: "rat option list"

text \<open>Modelled from the spec: the result of a call, the rows in ascending window order and
  the count of skipped values (the engine's source is missing).\<close>

record aggregated_series =
  out_rows :: "aggregated_row list"
  skipped :: nat

text \<open>Modelled from the spec: parsing the timestamp of one Observation (the engine's source
  is missing).\<close>

definition timestamp_of :: "string \<Rightarrow> observation \<Rightarrow> rat option" where
  "timestamp_of time_column ob =
     (case map_of ob time_column of Some (Num t) \<Rightarrow> Some t | _ \<Rightarrow> None)"

text \<open>Modelled from the spec: step 1, parse and validate the timestamp of every
  Observation; one that does not parse is fatal (the engine's source is missing).\<close>

fun parse_timestamps :: "string \<Rightarrow> observation list \<Rightarrow> (rat \<times> observation) list option" where
  "parse_timestamps time_column [] = Some []"
| "parse_timestamps time_column (ob # obs) =
     (case timestamp_of time_column ob of
        None \<Rightarrow> None
      | Some t \<Rightarrow>
          (case parse_timestamps time_column obs of
             None \<Rightarrow> None
           | Some stamped \<Rightarrow> Some ((t, ob) # stamped)))"

text \<open>Modelled from the spec: an Observation paired with its parsed timestamp, as step 1
  leaves it when the timestamp parses (the engine's source is missing).\<close>

definition stamp :: "string \<Rightarrow> observation \<Rightarrow> rat \<times> observation" where
  "stamp tc ob = (the (timestamp_of tc ob), ob)"

text \<open>Modelled from the spec: the anchor fixed once per run, given the first timestamp of
  the sorted series (the engine's source is missing).\<close>

fun anchor_value :: "anchor \<Rightarrow> rat \<Rightarrow> rat" where
  "anchor_value (Epoch origin) first_ts = origin"
| "anchor_value FirstObservation first_ts = first_ts"

text \<open>Modelled from the spec: step 2, the window index
  \<open>floor((timestamp - anchor) / window_duration)\<close> (the engine's source is missing).\<close>

definition window_index :: "rat \<Rightarrow> rat \<Rightarrow> rat \<Rightarrow> int" where
  "window_index a d t = \<lfloor>(t - a) / d\<rfloor>"

text \<open>Modelled from the spec: step 3, the Window Bucket of an index, the observations of
  the sorted series whose timestamp falls in that window, in their sorted order (the
  engine's source is missing).\<close>

definition bucket :: "rat \<Rightarrow> rat \<Rightarrow> int \<Rightarrow> (rat \<times> observation) list \<Rightarrow> (rat \<times> observation) list" where
  "bucket a d i stamped = filter (\<lambda>p. window_index a d (fst p) = i) stamped"

text \<open>Modelled from the spec: the values a bucket contributes to a column; a cell that is
  not a number is skipped (the engine's source is missing).\<close>

definition numeric_cell :: "string \<Rightarrow> rat \<times> observation \<Rightarrow> rat option" where
  "numeric_cell c p = (case map_of (snd p) c of Some (Num v) \<Rightarrow> Some v | _ \<Rightarrow> None)"

definition column_values :: "string \<Rightarrow> (rat \<times> observation) list \<Rightarrow> rat list" where
  "column_values c b = List.map_filter (numeric_cell c) b"

text \<open>Modelled from the spec: the skipped-value count of a column (the engine's source is
  missing).\<close>

definition skipped_values :: "string \<Rightarrow> (rat \<times> observation) list \<Rightarrow> nat" where
  "skipped_values c stamped = length (filter (\<lambda>p. numeric_cell c p = None) stamped)"

text \<open>Modelled from the spec: the reducers; a window with no contributing value gives the
  marker, and the mean is a running sum and count (the engine's source is missing).\<close>

fun reduce :: "reducer \<Rightarrow> rat list \<Rightarrow> rat option" where
  "reduce r [] = None"
| "reduce ByMean (v # vs) =
     (case fold (\<lambda>x (running_sum, n). (running_sum + x, Suc n)) (v # vs) (0, 0) of
        (running_sum, n) \<Rightarrow> Some (running_sum / of_nat n))"
| "reduce BySum (v # vs) = Some (fold (\<lambda>x running_sum. running_sum + x) vs v)"
| "reduce ByMin (v # vs) = Some (fold min vs v)"
| "reduce ByMax (v # vs) = Some (fold max vs v)"
| "reduce ByCount (v # vs) = Some (of_nat (length (v # vs)))"
| "reduce ByFirst (v # vs) = Some v"
| "reduce ByLast (v # vs) = Some (last (v # vs))"

text \<open>Modelled from the spec: steps 4 and 5, one Aggregated Row for a window index (the
  engine's source is missing).\<close>

definition aggregate_window ::
  "rat \<Rightarrow> rat \<Rightarrow> reducer \<Rightarrow> string list \<Rightarrow> (rat \<times> observation) list \<Rightarrow> int \<Rightarrow> aggregated_row" where
  "aggregate_window a d r value_columns stamped i =
     \<lparr>window_start = a + of_int i * d,
      aggregates = map (\<lambda>c. reduce r (column_values c (bucket a d i stamped))) value_columns\<rparr>"

text \<open>Modelled from the spec: the operation \<open>resample\<close>, with the anchor rule as a parameter.
  The window duration is checked before any data is read, then the columns, then the
  timestamps; the series is stable-sorted by timestamp and every window index from the
  first observation's to the last observation's gives a row. The spec requires a non-empty
  series and names no error for an empty one: the model returns no row for it (the engine's
  source is missing).\<close>

definition resample ::
  "series \<Rightarrow> string \<Rightarrow> string list \<Rightarrow> rat \<Rightarrow> anchor \<Rightarrow> reducer \<Rightarrow> engine_error + aggregated_series" where
  "resample s time_column value_columns window_duration anc r =
     (if window_duration \<le> 0 then Inl InvalidWindowError
      else if time_column \<notin> set (header s) \<or> \<not> set value_columns \<subseteq> set (header s)
      then Inl ColumnNotFoundError
      else
        (case parse_timestamps time_column (rows s) of
           None \<Rightarrow> Inl MalformedInputError
         | Some stamped \<Rightarrow>
             (case sort_key fst stamped of
                [] \<Rightarrow> Inr \<lparr>out_rows = [], skipped = 0\<rparr>
              | p # ps \<Rightarrow>
                  (let a = anchor_value anc (fst p);
                       first_index = window_index a window_duration (fst p);
                       last_index = window_index a window_duration (fst (last (p # ps)))
                   in Inr \<lparr>out_rows =
                             map (aggregate_window a window_duration r value_columns (p # ps))
                               [first_index..last_index],
                           skipped = sum_list (map (\<lambda>c. skipped_values c (p # ps)) value_columns)\<rparr>))))"

subsection \<open>Two small series\<close>

text \<open>Two observations with the same timestamp, in the two possible orders.\<close>

definition tied_series :: series where
  "tied_series =
     \<lparr>header = [''t'', ''v''],
      rows = [[(''t'', Num 0), (''v'', Num 1)], [(''t'', Num 0), (''v'', Num 2)]]\<rparr>"

definition tied_series_swapped :: series where
  "tied_series_swapped =
     \<lparr>header = [''t'', ''v''],
      rows = [[(''t'', Num 0), (''v'', Num 2)], [(''t'', Num 0), (''v'', Num 1)]]\<rparr>"

text \<open>Observations at minute 12, minute 0 and minute 1 (in seconds), one value not a number.\<close>

definition sparse_series :: series where
  "sparse_series =
     \<lparr>header = [''t'', ''v''],
      rows = [[(''t'', Num 720), (''v'', Num 6)], [(''t'', Num 0), (''v'', Num 2)],
              [(''t'', Num 60), (''v'', Num 4)], [(''t'', Num 90), (''v'', Unparsable)]]\<rparr>"

definition sparse_series_permuted :: series where
  "sparse_series_permuted =
     \<lparr>header = [''t'', ''v''],
      rows = [[(''t'', Num 90), (''v'', Unparsable)], [(''t'', Num 60), (''v'', Num 4)],
              [(''t'', Num 720), (''v'', Num 6)], [(''t'', Num 0), (''v'', Num 2)]]\<rparr>"


section \<open>Properties of the driver\<close>

subsection \<open>One iteration of the loop, case by case\<close>

lemma process_press_missing:
  "\<not> exists_path (files st) (input_file_of n) \<Longrightarrow>
   process_press e n st =
     (Inr (), st\<lparr>console := console st @
        [ProcessingPress n, InputLine (input_file_of n), OutputLine (output_file_of n),
         NotFoundSkipping, Blank]\<rparr>)"
  by (simp add: process_press_def prints_def Let_def)

lemma run_fileprepper_completed:
  "spawn e (str_path (os_sep e) FILEPREPPER_CLI # command) (files st) = (Completed rc out err, fsys) \<Longrightarrow>
   run_fileprepper e command st =
     (Inr (if rc = 0 then (True, out) else (False, err)),
      st\<lparr>files := fsys,
         invocations := invocations st @ [str_path (os_sep e) FILEPREPPER_CLI # command]\<rparr>)"
  by (simp add: run_fileprepper_def Let_def)

lemma process_press_failed:
  assumes "exists_path (files st) (input_file_of n)"
    and "spawn e (cli_argv (os_sep e) n) (files st) = (Completed rc out err, fsys)"
    and "rc \<noteq> 0"
  shows "process_press e n st =
     (Inr (), st\<lparr>files := fsys, invocations := invocations st @ [cli_argv (os_sep e) n],
        console := console st @
        [ProcessingPress n, InputLine (input_file_of n), OutputLine (output_file_of n),
         FailedLine, ErrorLine err, Blank]\<rparr>)"
  using assms
  by (simp add: process_press_def prints_def Let_def cli_argv_def run_fileprepper_completed)

lemma process_press_succeeded:
  assumes "exists_path (files st) (input_file_of n)"
    and "spawn e (cli_argv (os_sep e) n) (files st) = (Completed 0 out err, fsys)"
  shows "process_press e n st =
     (let st3 = st\<lparr>files := fsys, invocations := invocations st @ [cli_argv (os_sep e) n],
        console := console st @
        [ProcessingPress n, InputLine (input_file_of n), OutputLine (output_file_of n),
         SuccessLine]\<rparr>
      in case count_lines fsys (input_file_of n) of
           Inl x \<Rightarrow> (Inl x, st3)
         | Inr input_rows \<Rightarrow>
          (case count_lines fsys (output_file_of n) of
             Inl x \<Rightarrow> (Inl x, st3)
           | Inr output_rows \<Rightarrow>
               if input_rows = 0 then (Inl ZeroDivisionError, st3)
               else (Inr (), st3\<lparr>console := console st3 @
                   [RowsLine input_rows output_rows
                      (of_int ((input_rows - output_rows) * 100) / of_int input_rows), Blank]\<rparr>)))"
  using assms
  by (simp add: process_press_def prints_def Let_def cli_argv_def run_fileprepper_completed
      true_div_def split: sum.splits)

subsection \<open>Lines of a text\<close>

lemma LF_neq_CR: "LF \<noteq> CR" "CR \<noteq> LF"
  by (simp_all add: LF_def CR_def)

lemma universal_newlines_plain:
  "c \<noteq> CR \<Longrightarrow> universal_newlines (c # t) = c # universal_newlines t"
  by (cases t) simp_all

lemma universal_newlines_header_LF:
  "CR \<notin> set h \<Longrightarrow> universal_newlines (h @ LF # t) = h @ LF # universal_newlines t"
  by (induction h) (auto simp: universal_newlines_plain LF_neq_CR)

lemma universal_newlines_header_CRLF:
  "CR \<notin> set h \<Longrightarrow> universal_newlines (h @ CR # LF # t) = h @ LF # universal_newlines t"
  by (induction h) (auto simp: universal_newlines_plain)

lemma split_lines_header:
  "LF \<notin> set h \<Longrightarrow> split_lines cur (h @ LF # u) = (cur @ h @ [LF]) # split_lines [] u"
  by (induction h arbitrary: cur) auto

lemma text_lines_header:
  assumes "CR \<notin> set h" "LF \<notin> set h" "nl = [LF] \<or> nl = [CR, LF]"
  shows "text_lines (h @ nl @ body) = (h @ [LF]) # text_lines body"
  using assms
  by (auto simp: text_lines_def universal_newlines_header_LF universal_newlines_header_CRLF
      split_lines_header)

lemma split_lines_Nil: "split_lines cur u = [] \<longleftrightarrow> cur = [] \<and> u = []"
  by (induction u arbitrary: cur) auto

lemma universal_newlines_Nil: "universal_newlines t = [] \<longleftrightarrow> t = []"
  by (induction t rule: universal_newlines.induct) auto

lemma text_lines_empty: "text_lines t = [] \<longleftrightarrow> t = []"
  by (simp add: text_lines_def split_lines_Nil universal_newlines_Nil)

subsection \<open>Evaluation of the small world\<close>

lemmas ex_defs = example_state_def example_env_def example_files_def example_table_in_def example_table_out_def
  cli_argv_def window_command_def input_file_of_def output_file_of_def joinpath_def str_path_def
  INPUT_DIR_def OUTPUT_DIR_def FILEPREPPER_CLI_def exists_path_def str_int_def digits.simps digit_char_def
  press_name_head_def press_name_tail_def dir_003_def

lemma py_range_1_5: "py_range 1 5 = [1, 2, 3, 4]"
  by (simp add: py_range_def upto_rec1)

lemma str_int_digit: "str_int 1 = ''1''" "str_int 2 = ''2''" "str_int 3 = ''3''" "str_int 4 = ''4''"
  by (simp_all add: str_int_def digits.simps digit_char_def)

subsection \<open>What the console announces\<close>

lemma process_press_announces:
  "announced_presses (console (snd (process_press e n st))) = announced_presses (console st) @ [n]"
  "announced_inputs (console (snd (process_press e n st))) =
     announced_inputs (console st) @ [input_file_of n]"
  "announced_outputs (console (snd (process_press e n st))) =
     announced_outputs (console st) @ [output_file_of n]"
  by (auto simp: announced_presses_def announced_inputs_def announced_outputs_def
      process_press_def run_fileprepper_def prints_def Let_def true_div_def
      split: prod.splits sum.splits completed.splits)

lemma for_press_num_announces:
  "\<exists>k\<le>length ns.
     announced_presses (console (snd (for_press_num e ns st))) =
       announced_presses (console st) @ take k ns
     \<and> announced_inputs (console (snd (for_press_num e ns st))) =
       announced_inputs (console st) @ map input_file_of (take k ns)
     \<and> announced_outputs (console (snd (for_press_num e ns st))) =
       announced_outputs (console st) @ map output_file_of (take k ns)
     \<and> (fst (for_press_num e ns st) = Inr () \<longrightarrow> k = length ns)"
proof (induction ns arbitrary: st)
  case Nil
  then show ?case by simp
next
  case (Cons n ns)
  obtain r st' where step: "process_press e n st = (r, st')"
    by (cases "process_press e n st")
  have ann: "announced_presses (console st') = announced_presses (console st) @ [n]"
    "announced_inputs (console st') = announced_inputs (console st) @ [input_file_of n]"
    "announced_outputs (console st') = announced_outputs (console st) @ [output_file_of n]"
    using process_press_announces [of e n st] by (simp_all add: step)
  show ?case
  proof (cases r)
    case (Inl x)
    then have "for_press_num e (n # ns) st = (Inl x, st')"
      by (simp add: step)
    then show ?thesis
      by (intro exI [of _ 1]) (simp add: ann del: for_press_num.simps)
  next
    case (Inr u)
    then have eq: "for_press_num e (n # ns) st = for_press_num e ns st'"
      by (simp add: step)
    from Cons.IH [of st'] obtain k where k: "k \<le> length ns"
      "announced_presses (console (snd (for_press_num e ns st'))) =
         announced_presses (console st') @ take k ns"
      "announced_inputs (console (snd (for_press_num e ns st'))) =
         announced_inputs (console st') @ map input_file_of (take k ns)"
      "announced_outputs (console (snd (for_press_num e ns st'))) =
         announced_outputs (console st') @ map output_file_of (take k ns)"
      "fst (for_press_num e ns st') = Inr () \<longrightarrow> k = length ns"
      by blast
    show ?thesis
      by (intro exI [of _ "Suc k"]) (use k in \<open>simp add: eq ann del: for_press_num.simps\<close>)
  qed
qed

section \<open>The claims about the driver\<close>

text \<open>
  \<^bold>\<open>C2\<close>. As amended: when the process has run to completion and its captured streams
  are text, \<open>run_fileprepper\<close> returns \<open>(True, stdout)\<close> for status zero and
  \<open>(False, stderr)\<close> for any other status: in both cases it returns, and the exception for
  the nonzero status does not reach the caller.
\<close>

theorem run_fileprepper_exit_status:
  assumes "spawn e (str_path (os_sep e) FILEPREPPER_CLI # command) (files st) =
             (Completed rc out err, fsys)"
  shows "fst (run_fileprepper e command st) =
           (if rc = 0 then Inr (True, out) else Inr (False, err))"
  using assms by (simp add: run_fileprepper_completed)

theorem run_fileprepper_exit_status_witness:
  "fst (run_fileprepper example_env (window_command ''/'' (input_file_of 1) (output_file_of 1))
          example_state) = Inr (True, ''done'')
   \<and> fst (run_fileprepper example_env (window_command ''/'' (input_file_of 4) (output_file_of 4))
          example_state) = Inr (False, ''column not found'')"
proof -
  have a: "spawn example_env (str_path (os_sep example_env) FILEPREPPER_CLI #
             window_command ''/'' (input_file_of 1) (output_file_of 1)) (files example_state)
            = (Completed 0 ''done'' [],
               example_files(output_file_of 1 \<mapsto> TextFile example_table_out))"
    by (simp add: ex_defs)
  have b: "spawn example_env (str_path (os_sep example_env) FILEPREPPER_CLI #
             window_command ''/'' (input_file_of 4) (output_file_of 4)) (files example_state)
            = (Completed 1 [] ''column not found'', example_files)"
    by (simp add: ex_defs)
  show ?thesis
    using run_fileprepper_exit_status [OF a] run_fileprepper_exit_status [OF b] by simp
qed

text \<open>
  \<^bold>\<open>C2\<close>. As stated, for every process that exits with status zero, the claim fails: when
  the captured bytes are not text, \<open>subprocess.run\<close> raises while decoding them, and
  \<open>run_fileprepper\<close>, which handles \<open>CalledProcessError\<close> only, raises instead of returning.
\<close>

theorem run_fileprepper_decode_counterexample:
  "returncode_of (fst (spawn undecodable_env
       (str_path (os_sep undecodable_env) FILEPREPPER_CLI # [''window'']) (files example_state)))
     = Some 0
   \<and> fst (run_fileprepper undecodable_env [''window''] example_state) = Inl UnicodeDecodeError"
  by (simp add: undecodable_env_def run_fileprepper_def)

text \<open>
  \<^bold>\<open>C3\<close>. As amended: in the loop over the press numbers, a press whose input file is
  missing is skipped, and a press for which the tool runs and exits with a nonzero status has
  its error printed; in both cases the loop goes on with the remaining press numbers.
\<close>

theorem failure_does_not_stop_batch:
  "(\<not> exists_path (files st) (input_file_of n) \<longrightarrow>
      for_press_num e (n # rest) st =
        for_press_num e rest (st\<lparr>console := console st @
          [ProcessingPress n, InputLine (input_file_of n), OutputLine (output_file_of n),
           NotFoundSkipping, Blank]\<rparr>))
   \<and> (exists_path (files st) (input_file_of n)
        \<and> spawn e (cli_argv (os_sep e) n) (files st) = (Completed rc out err, fsys) \<and> rc \<noteq> 0 \<longrightarrow>
      for_press_num e (n # rest) st =
        for_press_num e rest (st\<lparr>files := fsys,
          invocations := invocations st @ [cli_argv (os_sep e) n],
          console := console st @
          [ProcessingPress n, InputLine (input_file_of n), OutputLine (output_file_of n),
           FailedLine, ErrorLine err, Blank]\<rparr>))"
  by (simp add: process_press_missing process_press_failed)

theorem failure_does_not_stop_batch_witness:
  "fst (for_press_num example_env [3, 4, 1] example_state) = Inr ()
   \<and> announced_presses (console (snd (for_press_num example_env [3, 4, 1] example_state)))
       = [3, 4, 1]
   \<and> invocations (snd (for_press_num example_env [3, 4, 1] example_state))
       = [cli_argv ''/'' 4, cli_argv ''/'' 1]"
proof -
  define st1 where "st1 = example_state\<lparr>console := console example_state @
      [ProcessingPress 3, InputLine (input_file_of 3), OutputLine (output_file_of 3),
       NotFoundSkipping, Blank]\<rparr>"
  have a: "\<not> exists_path (files example_state) (input_file_of 3)"
    by (simp add: ex_defs)
  have b: "exists_path (files st1) (input_file_of 4)"
    by (simp add: st1_def ex_defs)
  have c: "spawn example_env (cli_argv (os_sep example_env) 4) (files st1)
            = (Completed 1 [] ''column not found'', example_files)"
    by (simp add: st1_def ex_defs)
  have d: "(1::int) \<noteq> 0"
    by simp
  note skipped = failure_does_not_stop_batch
      [where st = example_state and n = 3 and e = example_env and rest = "[4, 1]",
        THEN conjunct1, rule_format, OF a, folded st1_def]
  note failed = failure_does_not_stop_batch
      [where st = st1 and n = 4 and e = example_env and rest = "[1]",
        THEN conjunct2, rule_format, OF conjI [OF b conjI [OF c d]]]
  show ?thesis
    unfolding skipped failed
    by (simp add: st1_def process_press_def run_fileprepper_def count_lines_def true_div_def
        prints_def Let_def announced_presses_def text_lines_def example_header_def
        example_data_in_def example_data_out_def LF_def CR_def ex_defs)
qed

text \<open>
  \<^bold>\<open>C3\<close>. As stated, that a failure on one press never ends the batch, the claim fails: when
  the executable cannot be started for press 1, the exception leaves the loop, nothing is
  reported, and press 4, whose input file is there, is never tried.
\<close>

theorem failure_stops_batch_counterexample:
  "exists_path (files example_state) (input_file_of 4)
   \<and> fst (for_press_num unstartable_env [1, 2, 3, 4] example_state) = Inl PermissionError
   \<and> announced_presses (console (snd (for_press_num unstartable_env [1, 2, 3, 4] example_state)))
       = [1]
   \<and> invocations (snd (for_press_num unstartable_env [1, 2, 3, 4] example_state))
       = [cli_argv ''/'' 1]"
  by (simp add: unstartable_env_def process_press_def run_fileprepper_def prints_def Let_def
      announced_presses_def ex_defs)

text \<open>
  \<^bold>\<open>C4\<close>. For a press whose input file exists the script runs the tool exactly once,
  on the argument vector made of the input path, the output path, the time column
  \<open>Time_s[s]\<close>, the value column \<open>RMS[A]\<close>, the window \<open>5T\<close> and the method \<open>mean\<close>: the file
  system afterwards is the one this single run leaves, and what the iteration prints or raises
  is decided by the outcome of this run. For a press whose input file is missing the script
  starts nothing.
\<close>

theorem engine_invoked_once_per_dataset:
  "(let argv =
          [str_path (os_sep e) FILEPREPPER_CLI, ''window'',
           ''-i'', str_path (os_sep e) (input_file_of n),
           ''-o'', str_path (os_sep e) (output_file_of n),
           ''--type'', ''resample'', ''--method'', ''mean'', ''--columns'', ''RMS[A]'',
           ''--time-column'', ''Time_s[s]'', ''--window'', ''5T'', ''--header''];
        announced =
          [ProcessingPress n, InputLine (input_file_of n), OutputLine (output_file_of n)];
        after = process_press e n st
    in if exists_path (files st) (input_file_of n)
       then invocations (snd after) = invocations st @ [argv]
         \<and> files (snd after) = snd (spawn e argv (files st))
         \<and> (case fst (spawn e argv (files st)) of
               Completed returncode out err \<Rightarrow>
                 if returncode = 0
                 then take (length (console st) + 4) (console (snd after)) =
                        console st @ announced @ [SuccessLine]
                 else fst after = Inr ()
                   \<and> console (snd after) =
                        console st @ announced @ [FailedLine, ErrorLine err, Blank]
             | Undecodable returncode \<Rightarrow>
                 fst after = Inl UnicodeDecodeError
                   \<and> console (snd after) = console st @ announced
             | NotStarted f \<Rightarrow>
                 fst after = Inl (start_exn f)
                   \<and> console (snd after) = console st @ announced)
       else invocations (snd after) = invocations st
         \<and> files (snd after) = files st
         \<and> fst after = Inr ())"
  by (auto simp: process_press_def run_fileprepper_def prints_def Let_def window_command_def
      split: prod.splits sum.splits completed.splits)

theorem engine_invoked_once_per_dataset_witness:
  "invocations (snd (process_press example_env 1 example_state)) = [cli_argv ''/'' 1]
   \<and> files (snd (process_press example_env 1 example_state)) =
       example_files(output_file_of 1 \<mapsto> TextFile example_table_out)
   \<and> console (snd (process_press example_env 4 example_state)) =
       [ProcessingPress 4, InputLine (input_file_of 4), OutputLine (output_file_of 4),
        FailedLine, ErrorLine ''column not found'', Blank]
   \<and> invocations (snd (process_press example_env 3 example_state)) = []"
proof -
  have a: "exists_path (files example_state) (input_file_of 1)"
    "exists_path (files example_state) (input_file_of 4)"
    "\<not> exists_path (files example_state) (input_file_of 3)"
    by (simp_all add: ex_defs)
  have b: "cli_argv ''/'' 1 \<noteq> cli_argv ''/'' 4" "cli_argv ''/'' 2 \<noteq> cli_argv ''/'' 4"
    by (simp_all add: ex_defs)
  have c: "console example_state = []" "invocations example_state = []"
    "files example_state = example_files" "os_sep example_env = ''/''"
    by (simp_all add: example_state_def example_env_def)
  show ?thesis
    using engine_invoked_once_per_dataset [of example_env 1 example_state]
      engine_invoked_once_per_dataset [of example_env 4 example_state]
      engine_invoked_once_per_dataset [of example_env 3 example_state] a b
    by (simp add: Let_def c example_env_def cli_argv_def [symmetric, unfolded window_command_def])
qed

text \<open>
  \<^bold>\<open>C5\<close>. After the tool has exited with status zero, the reduction the script
  prints is \<open>((input_rows - output_rows) * 100) / input_rows\<close>, where the two counts are the
  numbers of lines of the input file and of the output file; what the tool wrote to its
  standard streams plays no part.
\<close>

theorem reduction_from_line_counts:
  assumes "exists_path (files st) (input_file_of n)"
    and "spawn e (cli_argv (os_sep e) n) (files st) = (Completed 0 out err, fsys)"
    and "fsys (input_file_of n) = Some (TextFile tin)"
    and "fsys (output_file_of n) = Some (TextFile tout)"
    and "tin \<noteq> []"
  shows "(let input_rows = int (length (text_lines tin));
              output_rows = int (length (text_lines tout))
          in process_press e n st =
             (Inr (), st\<lparr>files := fsys, invocations := invocations st @ [cli_argv (os_sep e) n],
                console := console st @
                  [ProcessingPress n, InputLine (input_file_of n), OutputLine (output_file_of n),
                   SuccessLine,
                   RowsLine input_rows output_rows
                     (of_int ((input_rows - output_rows) * 100) / of_int input_rows),
                   Blank]\<rparr>))"
  using assms
  by (simp add: process_press_succeeded [OF assms(1,2)] count_lines_def Let_def text_lines_empty)

theorem reduction_from_line_counts_witness:
  "console (snd (process_press example_env 1 example_state)) =
     [ProcessingPress 1, InputLine (input_file_of 1), OutputLine (output_file_of 1), SuccessLine,
      RowsLine 4 3 25, Blank]"
proof -
  have a: "exists_path (files example_state) (input_file_of 1)"
    by (simp add: ex_defs)
  have b: "spawn example_env (cli_argv (os_sep example_env) 1) (files example_state)
            = (Completed 0 ''done'' [], example_files(output_file_of 1 \<mapsto> TextFile example_table_out))"
    by (simp add: ex_defs)
  have c: "(example_files(output_file_of 1 \<mapsto> TextFile example_table_out)) (input_file_of 1) = Some (TextFile example_table_in)"
    by (simp add: ex_defs)
  have d: "(example_files(output_file_of 1 \<mapsto> TextFile example_table_out)) (output_file_of 1) = Some (TextFile example_table_out)"
    by simp
  have e: "example_table_in \<noteq> []"
    by (simp add: example_table_in_def)
  have f: "length (text_lines example_table_in) = 4" "length (text_lines example_table_out) = 3"
    by (simp_all add: example_table_in_def example_table_out_def example_header_def
        example_data_in_def example_data_out_def text_lines_def LF_def CR_def)
  show ?thesis
    using reduction_from_line_counts [OF a b c d e]
    by (simp add: Let_def f example_state_def)
qed

text \<open>
  \<^bold>\<open>C6\<close>. The batch announces the press numbers 1, 2, 3, 4 in this order, each
  with the input file named by the head of the name, the number and the tail of the name, and
  with the output file \<open>press{n}_5min.csv\<close>. A run that an exception cuts short announces an
  initial part of this sequence; a run that returns announces all four.
\<close>

theorem press_numbers_and_file_names:
  "\<exists>k\<le>4.
     announced_presses (console (snd (preprocess_press_data e st))) =
       announced_presses (console st) @ take k [1, 2, 3, 4]
     \<and> announced_inputs (console (snd (preprocess_press_data e st))) =
       announced_inputs (console st) @ take k
         [INPUT_DIR @ [press_name_head @ ''1'' @ press_name_tail],
          INPUT_DIR @ [press_name_head @ ''2'' @ press_name_tail],
          INPUT_DIR @ [press_name_head @ ''3'' @ press_name_tail],
          INPUT_DIR @ [press_name_head @ ''4'' @ press_name_tail]]
     \<and> announced_outputs (console (snd (preprocess_press_data e st))) =
       announced_outputs (console st) @ take k
         [OUTPUT_DIR @ [''press1_5min.csv''], OUTPUT_DIR @ [''press2_5min.csv''],
          OUTPUT_DIR @ [''press3_5min.csv''], OUTPUT_DIR @ [''press4_5min.csv'']]
     \<and> (fst (preprocess_press_data e st) = Inr () \<longrightarrow> k = 4)"
proof (cases "mkdir_parents_exist_ok OUTPUT_DIR (files st)")
  case (Inl x)
  then have "preprocess_press_data e st = (Inl x, st)"
    by (simp add: preprocess_press_data_def)
  then show ?thesis
    by (intro exI [of _ 0]) simp
next
  case (Inr fsys)
  define st1 where "st1 = prints [Rule, Title, Subtitle, Rule, Blank] (st\<lparr>files := fsys\<rparr>)"
  have st1: "announced_presses (console st1) = announced_presses (console st)"
    "announced_inputs (console st1) = announced_inputs (console st)"
    "announced_outputs (console st1) = announced_outputs (console st)"
    by (simp_all add: st1_def prints_def announced_presses_def announced_inputs_def
        announced_outputs_def)
  obtain r st2 where loop: "for_press_num e [1, 2, 3, 4] st1 = (r, st2)"
    by (cases "for_press_num e [1, 2, 3, 4] st1")
  have pp: "preprocess_press_data e st =
      (case r of Inl x \<Rightarrow> (Inl x, st2)
       | Inr u \<Rightarrow> (Inr (), prints [Rule, CompleteLine, OutputDirLine OUTPUT_DIR, Rule] st2))"
    by (simp add: preprocess_press_data_def Inr st1_def [symmetric] py_range_1_5 loop
        del: for_press_num.simps)
  have whole: "fst (preprocess_press_data e st) = r"
    "announced_presses (console (snd (preprocess_press_data e st))) = announced_presses (console st2)"
    "announced_inputs (console (snd (preprocess_press_data e st))) = announced_inputs (console st2)"
    "announced_outputs (console (snd (preprocess_press_data e st))) = announced_outputs (console st2)"
    by (simp_all add: pp prints_def announced_presses_def announced_inputs_def
        announced_outputs_def split: sum.splits)
  from for_press_num_announces [of "[1, 2, 3, 4]" e st1, unfolded loop fst_conv snd_conv]
  obtain k where k: "k \<le> length [1, 2, 3, 4 :: int]"
    "announced_presses (console st2) = announced_presses (console st1) @ take k [1, 2, 3, 4]"
    "announced_inputs (console st2) =
       announced_inputs (console st1) @ map input_file_of (take k [1, 2, 3, 4])"
    "announced_outputs (console st2) =
       announced_outputs (console st1) @ map output_file_of (take k [1, 2, 3, 4])"
    "r = Inr () \<longrightarrow> k = length [1, 2, 3, 4 :: int]"
    by blast
  have names: "map input_file_of (take k [1, 2, 3, 4]) = take k
         [INPUT_DIR @ [press_name_head @ ''1'' @ press_name_tail],
          INPUT_DIR @ [press_name_head @ ''2'' @ press_name_tail],
          INPUT_DIR @ [press_name_head @ ''3'' @ press_name_tail],
          INPUT_DIR @ [press_name_head @ ''4'' @ press_name_tail]]"
    "map output_file_of (take k [1, 2, 3, 4]) = take k
         [OUTPUT_DIR @ [''press1_5min.csv''], OUTPUT_DIR @ [''press2_5min.csv''],
          OUTPUT_DIR @ [''press3_5min.csv''], OUTPUT_DIR @ [''press4_5min.csv'']]"
    by (simp_all add: take_map [symmetric] input_file_of_def output_file_of_def joinpath_def
        str_int_digit)
  show ?thesis
    by (intro exI [of _ k]) (use k names in \<open>simp add: whole st1\<close>)
qed

theorem press_numbers_and_file_names_witness:
  "fst (preprocess_press_data example_env example_state) = Inr ()
   \<and> announced_presses (console (snd (preprocess_press_data example_env example_state))) = [1, 2, 3, 4]
   \<and> announced_outputs (console (snd (preprocess_press_data example_env example_state))) =
         [OUTPUT_DIR @ [''press1_5min.csv''], OUTPUT_DIR @ [''press2_5min.csv''],
          OUTPUT_DIR @ [''press3_5min.csv''], OUTPUT_DIR @ [''press4_5min.csv'']]"
proof -
  have fin: "fst (preprocess_press_data example_env example_state) = Inr ()"
    by (simp add: preprocess_press_data_def mkdir_parents_exist_ok_def py_range_1_5
        process_press_def run_fileprepper_def count_lines_def true_div_def prints_def Let_def
        text_lines_def example_header_def example_data_in_def example_data_out_def LF_def CR_def
        ex_defs)
  have "announced_presses (console example_state) = []" "announced_outputs (console example_state) = []"
    by (simp_all add: example_state_def announced_presses_def announced_outputs_def)
  with press_numbers_and_file_names [of example_env example_state] fin
  show ?thesis
    by auto
qed

text \<open>
  \<^bold>\<open>C8\<close>. The division has no guard: when the tool has exited with status zero and
  both files have been read, the iteration raises \<open>ZeroDivisionError\<close> exactly when the input
  file has no line, and then nothing is reported after the success line.
\<close>

theorem zero_line_input_raises:
  assumes "exists_path (files st) (input_file_of n)"
    and "spawn e (cli_argv (os_sep e) n) (files st) = (Completed 0 out err, fsys)"
    and "fsys (input_file_of n) = Some (TextFile tin)"
    and "fsys (output_file_of n) = Some (TextFile tout)"
  shows "fst (process_press e n st) =
           (if length (text_lines tin) = 0 then Inl ZeroDivisionError else Inr ())
    \<and> (length (text_lines tin) = 0 \<longrightarrow>
           console (snd (process_press e n st)) = console st @
             [ProcessingPress n, InputLine (input_file_of n), OutputLine (output_file_of n),
              SuccessLine])"
  using assms(3,4)
  by (simp add: process_press_succeeded [OF assms(1,2)] count_lines_def Let_def)

theorem zero_line_input_raises_witness:
  "fst (process_press example_env 2 example_state_empty_input) = Inl ZeroDivisionError
   \<and> fst (for_press_num example_env [2, 3, 4] example_state_empty_input) = Inl ZeroDivisionError"
proof -
  have a: "exists_path (files example_state_empty_input) (input_file_of 2)"
    by (simp add: example_state_empty_input_def ex_defs)
  have b: "spawn example_env (cli_argv (os_sep example_env) 2) (files example_state_empty_input)
            = (Completed 0 ''done'' [],
               (example_files(input_file_of 2 \<mapsto> TextFile []))(output_file_of 2 \<mapsto> TextFile []))"
    by (simp add: example_state_empty_input_def ex_defs)
  have c: "((example_files(input_file_of 2 \<mapsto> TextFile []))(output_file_of 2 \<mapsto> TextFile []))
             (input_file_of 2) = Some (TextFile [])"
    by (simp add: ex_defs)
  have d: "((example_files(input_file_of 2 \<mapsto> TextFile []))(output_file_of 2 \<mapsto> TextFile []))
             (output_file_of 2) = Some (TextFile [])"
    by simp
  have "fst (process_press example_env 2 example_state_empty_input) = Inl ZeroDivisionError"
    using zero_line_input_raises [OF a b c d] by (simp add: text_lines_def)
  then show ?thesis
    by (cases "process_press example_env 2 example_state_empty_input") simp
qed

text \<open>
  \<^bold>\<open>C9\<close>. The counts are the lines of the whole files, header included: for an input
  and an output file that each start with a header line, the two numbers printed are the
  numbers of data lines plus one, and the reduction is computed from these totals.
\<close>

theorem counts_include_header:
  assumes "exists_path (files st) (input_file_of n)"
    and "spawn e (cli_argv (os_sep e) n) (files st) = (Completed 0 out err, fsys)"
    and "fsys (input_file_of n) = Some (TextFile (header_in @ nl_in @ data_in))"
    and "fsys (output_file_of n) = Some (TextFile (header_out @ nl_out @ data_out))"
    and "CR \<notin> set header_in" "LF \<notin> set header_in" "nl_in = [LF] \<or> nl_in = [CR, LF]"
    and "CR \<notin> set header_out" "LF \<notin> set header_out" "nl_out = [LF] \<or> nl_out = [CR, LF]"
  shows "(let data_rows_in = int (length (text_lines data_in));
              data_rows_out = int (length (text_lines data_out))
          in console (snd (process_press e n st)) = console st @
               [ProcessingPress n, InputLine (input_file_of n), OutputLine (output_file_of n),
                SuccessLine,
                RowsLine (data_rows_in + 1) (data_rows_out + 1)
                  (of_int (((data_rows_in + 1) - (data_rows_out + 1)) * 100)
                     / of_int (data_rows_in + 1)),
                Blank])"
proof -
  have "text_lines (header_in @ nl_in @ data_in) = (header_in @ [LF]) # text_lines data_in"
    using assms(5-7) by (rule text_lines_header)
  moreover
  have "text_lines (header_out @ nl_out @ data_out) = (header_out @ [LF]) # text_lines data_out"
    using assms(8-10) by (rule text_lines_header)
  ultimately show ?thesis
    using assms(3,4)
    by (simp add: process_press_succeeded [OF assms(1,2)] count_lines_def Let_def)
qed

theorem counts_include_header_witness:
  "console (snd (process_press example_env 1 example_state)) =
     [ProcessingPress 1, InputLine (input_file_of 1), OutputLine (output_file_of 1), SuccessLine,
      RowsLine (3 + 1) (2 + 1) 25, Blank]"
proof -
  have a: "exists_path (files example_state) (input_file_of 1)"
    by (simp add: ex_defs)
  have b: "spawn example_env (cli_argv (os_sep example_env) 1) (files example_state)
            = (Completed 0 ''done'' [], example_files(output_file_of 1 \<mapsto> TextFile example_table_out))"
    by (simp add: ex_defs)
  have c: "(example_files(output_file_of 1 \<mapsto> TextFile example_table_out)) (input_file_of 1) =
      Some (TextFile (example_header @ [LF] @ example_data_in))"
    by (simp add: ex_defs)
  have d: "(example_files(output_file_of 1 \<mapsto> TextFile example_table_out)) (output_file_of 1) =
      Some (TextFile (example_header @ [CR, LF] @ example_data_out))"
    by (simp add: example_table_out_def)
  have h: "CR \<notin> set example_header" "LF \<notin> set example_header"
    by (simp_all add: example_header_def CR_def LF_def)
  have f: "length (text_lines example_data_in) = 3" "length (text_lines example_data_out) = 2"
    by (simp_all add: example_data_in_def example_data_out_def text_lines_def LF_def CR_def)
  show ?thesis
    using counts_include_header [OF a b c d h(1) h(2) disjI1 [OF refl] h(1) h(2) disjI2 [OF refl]]
    by (simp add: Let_def f example_state_def)
qed

text \<open>
  \<^bold>\<open>C10\<close>. When the executable or the input directory does not exist, the script
  exits with status 1, having changed nothing in the file system and started no process.
\<close>

theorem missing_prerequisite_exits:
  assumes "\<not> exists_path (files st) FILEPREPPER_CLI \<or> \<not> exists_path (files st) INPUT_DIR"
  shows "fst (main e st) = Exited 1 \<and> files (snd (main e st)) = files st
    \<and> invocations (snd (main e st)) = invocations st"
  using assms by (auto simp: main_def prints_def)

theorem missing_prerequisite_exits_witness:
  "fst (main example_env bare_state) = Exited 1
   \<and> files (snd (main example_env bare_state)) = Map.empty
   \<and> fst (main example_env state_without_input_dir) = Exited 1
   \<and> files (snd (main example_env state_without_input_dir)) = [FILEPREPPER_CLI \<mapsto> OtherFile]
   \<and> invocations (snd (main example_env state_without_input_dir)) = []"
proof -
  have a: "\<not> exists_path (files bare_state) FILEPREPPER_CLI
      \<or> \<not> exists_path (files bare_state) INPUT_DIR"
    by (simp add: bare_state_def exists_path_def)
  have b: "\<not> exists_path (files state_without_input_dir) FILEPREPPER_CLI
      \<or> \<not> exists_path (files state_without_input_dir) INPUT_DIR"
    by (simp add: state_without_input_dir_def exists_path_def INPUT_DIR_def FILEPREPPER_CLI_def)
  show ?thesis
    using missing_prerequisite_exits [OF a, of example_env]
      missing_prerequisite_exits [OF b, of example_env]
    by (simp add: bare_state_def state_without_input_dir_def)
qed


section \<open>Properties of the resampling engine\<close>

subsection \<open>Timestamps and windows\<close>

lemma parse_timestamps_eq:
  "parse_timestamps tc obs =
     (if \<forall>ob\<in>set obs. timestamp_of tc ob \<noteq> None then Some (map (stamp tc) obs) else None)"
  by (induction obs) (auto simp: stamp_def split: option.splits)

lemma sorted_hd_Min:
  assumes "sorted (map f xs)" "xs \<noteq> []"
  shows "f (hd xs) = Min (f ` set xs)"
proof -
  obtain y ys where xs: "xs = y # ys"
    using assms(2) by (cases xs) auto
  have "\<forall>z\<in>set ys. f y \<le> f z"
    using assms(1) by (simp add: xs)
  then have "Min (f ` set xs) = f y"
    by (intro Min_eqI) (auto simp: xs)
  then show ?thesis
    by (simp add: xs)
qed

lemma sorted_last_Max:
  assumes "sorted (map f xs)" "xs \<noteq> []"
  shows "f (last xs) = Max (f ` set xs)"
proof -
  have "\<forall>z\<in>set xs. f z \<le> f (last xs)"
    using assms
  proof (induction xs)
    case Nil
    then show ?case by simp
  next
    case (Cons y ys)
    then show ?case
      by (cases ys) auto
  qed
  then have "Max (f ` set xs) = f (last xs)"
    using assms(2) by (intro Max_eqI) auto
  then show ?thesis
    by simp
qed

lemma upto_as_upt: "[i..j] = map (\<lambda>k. i + int k) [0..<nat (j - i + 1)]"
  by (rule nth_equalityI) simp_all

text \<open>The call on a valid input, with the first and the last timestamp named.\<close>

lemma resample_valid:
  assumes "0 < d" "tc \<in> set (header s)" "set vcs \<subseteq> set (header s)"
    and "parse_timestamps tc (rows s) = Some stamped" "stamped \<noteq> []"
  shows "resample s tc vcs d anc r =
     (let lo = Min (fst ` set stamped); hi = Max (fst ` set stamped);
          a = anchor_value anc lo
      in Inr \<lparr>out_rows = map (aggregate_window a d r vcs (sort_key fst stamped))
                           [window_index a d lo..window_index a d hi],
              skipped = sum_list (map (\<lambda>c. skipped_values c (sort_key fst stamped)) vcs)\<rparr>)"
proof -
  define sorted_rows where "sorted_rows = sort_key fst stamped"
  have "length sorted_rows = length stamped"
    by (simp add: sorted_rows_def)
  then have ne: "sorted_rows \<noteq> []"
    using assms(5) by auto
  then obtain p ps where pps: "sorted_rows = p # ps"
    by (cases sorted_rows) auto
  have srt: "sorted (map fst sorted_rows)"
    by (simp add: sorted_rows_def)
  have set_eq: "set sorted_rows = set stamped"
    by (simp add: sorted_rows_def)
  have lo: "fst p = Min (fst ` set stamped)"
    using sorted_hd_Min [OF srt ne] by (simp add: pps set_eq [symmetric])
  have hi: "fst (last (p # ps)) = Max (fst ` set stamped)"
    using sorted_last_Max [OF srt ne] by (simp add: pps set_eq [symmetric])
  show ?thesis
    using assms(1-4) lo hi
    by (simp add: resample_def sorted_rows_def [symmetric] pps Let_def del: last.simps)
qed

lemma floor_shift:
  fixes d :: rat
  assumes "0 < d"
  shows "\<lfloor>(t - (a + of_int i * d)) / d\<rfloor> = \<lfloor>(t - a) / d\<rfloor> - i"
proof -
  have "(t - (a + of_int i * d)) / d = (t - a) / d - of_int i"
    using assms by (simp add: field_simps)
  then show ?thesis
    by simp
qed

lemma window_index_mono:
  "0 < d \<Longrightarrow> t \<le> u \<Longrightarrow> window_index a d t \<le> window_index a d u"
  by (simp add: window_index_def floor_mono divide_right_mono)

text \<open>The mean of a window holding 2, 4 and 6 is 4.\<close>

lemma mean_of_2_4_6: "reduce ByMean [2, 4, 6] = Some 4"
  by simp

subsection \<open>Reducers that do not look at the order\<close>

lemma fold_running_sum:
  "fold (\<lambda>x (running_sum, n). (running_sum + x, Suc n)) vs (s0, n0) =
     (s0 + sum_list vs, n0 + length vs)"
  by (induction vs arbitrary: s0 n0) (simp_all add: add.assoc)

lemma fold_sum: "fold (\<lambda>x running_sum. running_sum + x) vs v = v + sum_list vs"
  for v :: rat
  by (induction vs arbitrary: v) (simp_all add: add.assoc)

lemma reduce_unordered:
  assumes "r \<noteq> ByFirst" "r \<noteq> ByLast" "vs \<noteq> []"
  shows "reduce r vs = Some
     (case r of
        ByMean \<Rightarrow> sum_list vs / of_nat (length vs)
      | BySum \<Rightarrow> sum_list vs
      | ByMin \<Rightarrow> Min (set vs)
      | ByMax \<Rightarrow> Max (set vs)
      | ByCount \<Rightarrow> of_nat (length vs)
      | _ \<Rightarrow> 0)"
proof -
  obtain v ws where vs: "vs = v # ws"
    using assms(3) by (cases vs) auto
  have mn: "fold min ws v = Min (set (v # ws))" and mx: "fold max ws v = Max (set (v # ws))"
    by (simp_all only: Min.set_eq_fold Max.set_eq_fold)
  show ?thesis
  proof (cases r)
    case ByMean
    then show ?thesis
      by (simp add: vs fold_running_sum)
  next
    case BySum
    then show ?thesis
      by (simp add: vs fold_sum)
  next
    case ByMin
    then show ?thesis
      unfolding vs using mn by simp
  next
    case ByMax
    then show ?thesis
      unfolding vs using mx by simp
  next
    case ByCount
    then show ?thesis
      by (simp add: vs)
  next
    case ByFirst
    then show ?thesis
      using assms(1) by simp
  next
    case ByLast
    then show ?thesis
      using assms(2) by simp
  qed
qed

lemma reduce_mset:
  assumes "mset vs = mset ws" "r \<noteq> ByFirst" "r \<noteq> ByLast"
  shows "reduce r vs = reduce r ws"
proof (cases "vs = []")
  case True
  then show ?thesis
    using assms(1) by simp
next
  case False
  then have ws: "ws \<noteq> []"
    using assms(1) by auto
  have "sum_list vs = sum_list ws"
    using assms(1) by (metis sum_mset_sum_list)
  moreover have "length vs = length ws"
    using assms(1) by (rule mset_eq_length)
  moreover have "set vs = set ws"
    using assms(1) by (rule mset_eq_setD)
  ultimately show ?thesis
    unfolding reduce_unordered [OF assms(2,3) False] reduce_unordered [OF assms(2,3) ws]
    by (cases r) simp_all
qed

lemma mset_column_values:
  "mset (column_values c (bucket a d i xs)) =
     image_mset (the \<circ> numeric_cell c)
       (filter_mset (\<lambda>p. numeric_cell c p \<noteq> None)
          (filter_mset (\<lambda>p. window_index a d (fst p) = i) (mset xs)))"
  unfolding column_values_def bucket_def List.map_filter_def
  by (simp only: mset_map mset_filter)

lemma aggregate_window_mset:
  assumes "mset xs = mset ys" "r \<noteq> ByFirst" "r \<noteq> ByLast"
  shows "aggregate_window a d r vcs xs i = aggregate_window a d r vcs ys i"
proof -
  have "reduce r (column_values c (bucket a d i xs)) = reduce r (column_values c (bucket a d i ys))"
    for c
    using assms(2,3) by (intro reduce_mset) (simp_all add: mset_column_values assms(1))
  then show ?thesis
    by (simp add: aggregate_window_def)
qed

lemma skipped_values_mset:
  assumes "mset xs = mset ys"
  shows "skipped_values c xs = skipped_values c ys"
proof -
  have "size (mset (filter (\<lambda>p. numeric_cell c p = None) xs)) =
        size (mset (filter (\<lambda>p. numeric_cell c p = None) ys))"
    by (simp add: assms)
  then show ?thesis
    by (simp add: skipped_values_def del: mset_filter)
qed

subsection \<open>Sorting a series without ties\<close>

lemma filter_key_distinct:
  "distinct (map f xs) \<Longrightarrow> k \<in> set xs \<Longrightarrow> filter (\<lambda>x. f k = f x) xs = [k]"
proof (induction xs)
  case Nil
  then show ?case by simp
next
  case (Cons x xs)
  show ?case
  proof (cases "k = x")
    case True
    have "filter (\<lambda>y. f x = f y) xs = []"
      using Cons.prems(1) by (auto simp: filter_empty_conv)
    then show ?thesis
      by (simp add: True)
  next
    case False
    then have "f k \<noteq> f x"
      using Cons.prems by (auto simp: image_iff)
    then show ?thesis
      using Cons False by auto
  qed
qed

lemma sort_key_distinct_mset:
  assumes "mset xs = mset ys" "distinct (map f ys)"
  shows "sort_key f xs = sort_key f ys"
proof (rule properties_for_sort_key)
  show "mset (sort_key f ys) = mset xs"
    by (simp add: assms(1))
  show "sorted (map f (sort_key f ys))"
    by simp
  fix k
  assume "k \<in> set (sort_key f ys)"
  then have k: "k \<in> set ys" "k \<in> set xs"
    using assms(1) by (auto dest: mset_eq_setD)
  have "mset (map f xs) = mset (map f ys)"
    by (simp add: assms(1))
  then have dx: "distinct (map f xs)"
    using assms(2) by (metis mset_eq_imp_distinct_iff)
  have "distinct (map f (sort_key f ys))"
    using assms(2) by (simp add: distinct_map)
  moreover have "k \<in> set (sort_key f ys)"
    using k(1) by simp
  ultimately have "filter (\<lambda>x. f k = f x) (sort_key f ys) = [k]"
    by (rule filter_key_distinct)
  then show "filter (\<lambda>x. f k = f x) (sort_key f ys) = filter (\<lambda>x. f k = f x) xs"
    by (simp add: filter_key_distinct [OF dx k(2)])
qed


subsection \<open>The order of the input rows\<close>

lemma distinct_stamps:
  assumes "\<forall>ob\<in>set obs. timestamp_of tc ob \<noteq> None"
    and "distinct (map (timestamp_of tc) obs)"
  shows "distinct (map fst (map (stamp tc) obs))"
proof -
  have "map fst (map (stamp tc) obs) = map the (map (timestamp_of tc) obs)"
    by (simp add: stamp_def)
  moreover have "inj_on the (set (map (timestamp_of tc) obs))"
  proof (rule inj_onI)
    fix x y :: "rat option"
    assume "x \<in> set (map (timestamp_of tc) obs)" "y \<in> set (map (timestamp_of tc) obs)"
    then have "x \<noteq> None" "y \<noteq> None"
      using assms(1) by auto
    moreover assume "the x = the y"
    ultimately show "x = y"
      by (cases x; cases y) simp_all
  qed
  ultimately show ?thesis
    using assms(2) by (simp only: distinct_map) 
qed

lemma resample_same_rows:
  assumes "0 < d" "tc \<in> set (header s)" "set vcs \<subseteq> set (header s)"
    and "header s' = header s"
    and "parse_timestamps tc (rows s) = Some st" "parse_timestamps tc (rows s') = Some st'"
    and "st \<noteq> []" "mset st' = mset st"
    and "(r \<noteq> ByFirst \<and> r \<noteq> ByLast) \<or> distinct (map fst st)"
  shows "resample s' tc vcs d anc r = resample s tc vcs d anc r"
proof -
  have ne: "st' \<noteq> []"
    using assms(7,8) by auto
  have set_eq: "set st' = set st"
    using assms(8) by (rule mset_eq_setD)
  define lo where "lo = Min (fst ` set st)"
  define hi where "hi = Max (fst ` set st)"
  define a where "a = anchor_value anc lo"
  have left: "resample s' tc vcs d anc r =
      Inr \<lparr>out_rows = map (aggregate_window a d r vcs (sort_key fst st'))
                           [window_index a d lo..window_index a d hi],
           skipped = sum_list (map (\<lambda>c. skipped_values c (sort_key fst st')) vcs)\<rparr>"
    using resample_valid [of d tc s' vcs st' anc r] assms(1-4,6) ne
    by (simp add: Let_def set_eq lo_def hi_def a_def)
  have right: "resample s tc vcs d anc r =
      Inr \<lparr>out_rows = map (aggregate_window a d r vcs (sort_key fst st))
                           [window_index a d lo..window_index a d hi],
           skipped = sum_list (map (\<lambda>c. skipped_values c (sort_key fst st)) vcs)\<rparr>"
    using resample_valid [of d tc s vcs st anc r] assms(1-3,5,7)
    by (simp add: Let_def lo_def hi_def a_def)
  have ms: "mset (sort_key fst st') = mset (sort_key fst st)"
    by (simp add: assms(8))
  have sk: "skipped_values c (sort_key fst st') = skipped_values c (sort_key fst st)" for c
    using ms by (rule skipped_values_mset)
  have "aggregate_window a d r vcs (sort_key fst st') i =
        aggregate_window a d r vcs (sort_key fst st) i" for i
    using assms(9)
  proof
    assume "r \<noteq> ByFirst \<and> r \<noteq> ByLast"
    then show ?thesis
      using ms by (intro aggregate_window_mset) simp_all
  next
    assume "distinct (map fst st)"
    with assms(8) have "sort_key fst st' = sort_key fst st"
      by (rule sort_key_distinct_mset)
    then show ?thesis
      by simp
  qed
  then show ?thesis
    by (simp add: left right sk)
qed

section \<open>The claims about the resampling engine\<close>

text \<open>
  \<^bold>\<open>C1\<close>. On a valid input (a positive window duration, the columns present, every
  timestamp parsed, at least one observation) and for either anchor rule, the call returns a
  result with exactly \<open>floor((last_ts - first_window_start) / duration) + 1\<close> rows, and the
  window starts of these rows are \<open>first_window_start\<close>, \<open>first_window_start + duration\<close>, and
  so on: every window from the first to the last appears once, empty or not.
\<close>

theorem resample_row_count:
  assumes "0 < d" "tc \<in> set (header s)" "set vcs \<subseteq> set (header s)"
    and "parse_timestamps tc (rows s) = Some stamped" "stamped \<noteq> []"
  shows "\<exists>out. resample s tc vcs d anc r = Inr out \<and>
     (let first_ts = Min (fst ` set stamped);
          last_ts = Max (fst ` set stamped);
          a = anchor_value anc first_ts;
          first_window_start = a + of_int \<lfloor>(first_ts - a) / d\<rfloor> * d;
          n = nat (\<lfloor>(last_ts - first_window_start) / d\<rfloor> + 1)
      in length (out_rows out) = n
         \<and> 0 < n
         \<and> map window_start (out_rows out) =
             map (\<lambda>k. first_window_start + of_nat k * d) [0..<n])"
proof -
  define lo where "lo = Min (fst ` set stamped)"
  define hi where "hi = Max (fst ` set stamped)"
  define a where "a = anchor_value anc lo"
  define i0 where "i0 = window_index a d lo"
  define i1 where "i1 = window_index a d hi"
  have "lo \<le> hi"
    using assms(5) by (simp add: lo_def hi_def)
  then have le: "i0 \<le> i1"
    unfolding i0_def i1_def using assms(1) by (intro window_index_mono)
  have shift: "\<lfloor>(hi - (a + of_int i0 * d)) / d\<rfloor> = i1 - i0"
    using floor_shift [OF assms(1)] by (simp add: i1_def window_index_def)
  have starts: "map window_start (map (aggregate_window a d r vcs (sort_key fst stamped)) [i0..i1])
      = map (\<lambda>k. (a + of_int i0 * d) + of_nat k * d) [0..<nat (i1 - i0 + 1)]"
    by (simp add: upto_as_upt [of i0 i1] aggregate_window_def comp_def algebra_simps)
  show ?thesis
    using resample_valid [OF assms, of anc r] le shift starts
    by (simp add: Let_def lo_def [symmetric] hi_def [symmetric] a_def [symmetric]
        i0_def [symmetric] i1_def [symmetric] window_index_def [symmetric])
qed


theorem resample_row_count_witness:
  "\<exists>out. resample sparse_series ''t'' [''v''] 300 (Epoch 0) ByMean = Inr out
     \<and> length (out_rows out) = 3
     \<and> map window_start (out_rows out) = [0, 300, 600]"
proof -
  have a: "(0::rat) < 300"
    by simp
  have b: "''t'' \<in> set (header sparse_series)" "set [''v''] \<subseteq> set (header sparse_series)"
    by (simp_all add: sparse_series_def)
  have c: "parse_timestamps ''t'' (rows sparse_series) =
      Some [(720, [(''t'', Num 720), (''v'', Num 6)]), (0, [(''t'', Num 0), (''v'', Num 2)]),
            (60, [(''t'', Num 60), (''v'', Num 4)]), (90, [(''t'', Num 90), (''v'', Unparsable)])]"
    by (simp add: sparse_series_def timestamp_of_def)
  have d: "[(720 :: rat, [(''t'', Num 720), (''v'', Num 6)]), (0, [(''t'', Num 0), (''v'', Num 2)]),
            (60, [(''t'', Num 60), (''v'', Num 4)]), (90, [(''t'', Num 90), (''v'', Unparsable)])] \<noteq> []"
    by simp
  have e: "\<lfloor>12 / 5 :: rat\<rfloor> = 2" "[0..<3] = [0, 1, 2]"
    by code_simp+
  show ?thesis
    using resample_row_count [OF a b c d, of "Epoch 0" ByMean]
    by (simp add: Let_def e)
qed

text \<open>
  \<^bold>\<open>C7\<close>. As amended: permuting the observations of the input leaves the result of the
  call unchanged for the reducers mean, sum, min, max and count, and for every reducer when no
  two observations have the same timestamp.
\<close>

theorem resample_order_invariant:
  assumes "header s' = header s" "mset (rows s') = mset (rows s)"
    and "(r \<noteq> ByFirst \<and> r \<noteq> ByLast) \<or> distinct (map (timestamp_of tc) (rows s))"
  shows "resample s' tc vcs d anc r = resample s tc vcs d anc r"
proof -
  have set_eq: "set (rows s') = set (rows s)"
    using assms(2) by (rule mset_eq_setD)
  consider (window) "d \<le> 0"
    | (column) "0 < d" "tc \<notin> set (header s) \<or> \<not> set vcs \<subseteq> set (header s)"
    | (malformed) "0 < d" "tc \<in> set (header s)" "set vcs \<subseteq> set (header s)"
        "\<not> (\<forall>ob\<in>set (rows s). timestamp_of tc ob \<noteq> None)"
    | (empty) "0 < d" "tc \<in> set (header s)" "set vcs \<subseteq> set (header s)" "rows s = []"
    | (valid) "0 < d" "tc \<in> set (header s)" "set vcs \<subseteq> set (header s)"
        "\<forall>ob\<in>set (rows s). timestamp_of tc ob \<noteq> None" "rows s \<noteq> []"
    by fastforce
  then show ?thesis
  proof cases
    case window
    then show ?thesis
      by (simp add: resample_def)
  next
    case column
    then show ?thesis
      by (auto simp: resample_def assms(1))
  next
    case malformed
    then have "parse_timestamps tc (rows s) = None" "parse_timestamps tc (rows s') = None"
      unfolding parse_timestamps_eq set_eq by simp_all
    then show ?thesis
      by (simp add: resample_def assms(1))
  next
    case empty
    then have "rows s' = []"
      using assms(2) by simp
    then show ?thesis
      using empty by (simp add: resample_def assms(1))
  next
    case valid
    have p: "parse_timestamps tc (rows s) = Some (map (stamp tc) (rows s))"
      "parse_timestamps tc (rows s') = Some (map (stamp tc) (rows s'))"
      using valid(4) by (simp_all add: parse_timestamps_eq set_eq)
    have m: "mset (map (stamp tc) (rows s')) = mset (map (stamp tc) (rows s))"
      by (simp add: assms(2))
    have n: "map (stamp tc) (rows s) \<noteq> []"
      using valid(5) by simp
    have o: "(r \<noteq> ByFirst \<and> r \<noteq> ByLast) \<or> distinct (map fst (map (stamp tc) (rows s)))"
      using assms(3) distinct_stamps [OF valid(4)] by blast
    show ?thesis
      using valid(1-3) assms(1) p n m o by (rule resample_same_rows)
  qed
qed

theorem resample_order_invariant_witness:
  "resample sparse_series_permuted ''t'' [''v''] 300 (Epoch 0) ByMean =
     resample sparse_series ''t'' [''v''] 300 (Epoch 0) ByMean
   \<and> resample sparse_series_permuted ''t'' [''v''] 300 FirstObservation ByLast =
     resample sparse_series ''t'' [''v''] 300 FirstObservation ByLast"
proof -
  have a: "header sparse_series_permuted = header sparse_series"
    by (simp add: sparse_series_def sparse_series_permuted_def)
  have b: "mset (rows sparse_series_permuted) = mset (rows sparse_series)"
    by (simp add: sparse_series_def sparse_series_permuted_def)
  have c: "(ByMean \<noteq> ByFirst \<and> ByMean \<noteq> ByLast)
      \<or> distinct (map (timestamp_of ''t'') (rows sparse_series))"
    by simp
  have d: "(ByLast \<noteq> ByFirst \<and> ByLast \<noteq> ByLast)
      \<or> distinct (map (timestamp_of ''t'') (rows sparse_series))"
    by (simp add: sparse_series_def timestamp_of_def)
  show ?thesis
    using resample_order_invariant [OF a b c] resample_order_invariant [OF a b d]
    by simp
qed

text \<open>
  \<^bold>\<open>C7\<close>. As stated, for every reducer, the claim fails: with two observations at the
  same timestamp the stable sort keeps their input order, and the reducer \<open>first\<close> returns the
  value of whichever comes first in the input.
\<close>

theorem resample_order_counterexample:
  "header tied_series_swapped = header tied_series
   \<and> mset (rows tied_series_swapped) = mset (rows tied_series)
   \<and> resample tied_series_swapped ''t'' [''v''] 300 (Epoch 0) ByFirst
       \<noteq> resample tied_series ''t'' [''v''] 300 (Epoch 0) ByFirst"
  by (simp add: tied_series_def tied_series_swapped_def resample_def timestamp_of_def
      window_index_def aggregate_window_def bucket_def column_values_def numeric_cell_def
      skipped_values_def List.map_filter_def)


end
